theory Spec2Isabelle
  imports Complex_Main
begin

section \<open>JavaScript numbers\<close>

text \<open>
  A JavaScript Number is NaN, one of the two infinities, or a finite value. Finite values
  are kept as exact reals: the rounding of IEEE-754 doubles and the signed zero are not
  part of this model. Every operator below follows the ECMAScript rule for the special
  values, so that the guards of script.js (\<^verbatim>\<open>isNaN\<close>, \<^verbatim>\<open>|| 0\<close>, the comparisons) take the
  branch the program takes.
\<close>

datatype jsnum = NaN | NegInf | Fin real | PosInf

fun isNaN :: "jsnum \<Rightarrow> bool" where
  "isNaN NaN = True"
| "isNaN _ = False"

text \<open>\<^verbatim>\<open>a < b\<close>: false as soon as one side is NaN.\<close>

fun js_lt :: "jsnum \<Rightarrow> jsnum \<Rightarrow> bool" where
  "js_lt NaN _ = False"
| "js_lt _ NaN = False"
| "js_lt (Fin a) (Fin b) = (a < b)"
| "js_lt NegInf NegInf = False"
| "js_lt NegInf _ = True"
| "js_lt _ NegInf = False"
| "js_lt PosInf _ = False"
| "js_lt _ PosInf = True"

text \<open>\<^verbatim>\<open>a <= b\<close>, \<^verbatim>\<open>a > b\<close> and \<^verbatim>\<open>a >= b\<close>.\<close>

fun js_le :: "jsnum \<Rightarrow> jsnum \<Rightarrow> bool" where
  "js_le NaN _ = False"
| "js_le _ NaN = False"
| "js_le a b = (\<not> js_lt b a)"

definition js_gt :: "jsnum \<Rightarrow> jsnum \<Rightarrow> bool" where
  "js_gt a b = js_lt b a"

definition js_ge :: "jsnum \<Rightarrow> jsnum \<Rightarrow> bool" where
  "js_ge a b = js_le b a"

fun js_neg :: "jsnum \<Rightarrow> jsnum" where
  "js_neg NaN = NaN"
| "js_neg NegInf = PosInf"
| "js_neg (Fin a) = Fin (- a)"
| "js_neg PosInf = NegInf"

text \<open>\<^verbatim>\<open>a + b\<close>: the sum of opposite infinities is NaN.\<close>

fun js_add :: "jsnum \<Rightarrow> jsnum \<Rightarrow> jsnum" where
  "js_add NaN _ = NaN"
| "js_add _ NaN = NaN"
| "js_add (Fin a) (Fin b) = Fin (a + b)"
| "js_add PosInf NegInf = NaN"
| "js_add NegInf PosInf = NaN"
| "js_add PosInf _ = PosInf"
| "js_add _ PosInf = PosInf"
| "js_add NegInf _ = NegInf"
| "js_add _ NegInf = NegInf"

definition js_sub :: "jsnum \<Rightarrow> jsnum \<Rightarrow> jsnum" where
  "js_sub a b = js_add a (js_neg b)"

text \<open>\<^verbatim>\<open>a * b\<close>: an infinity times zero is NaN, otherwise the sign rule applies.\<close>

fun js_sign :: "jsnum \<Rightarrow> int" where
  "js_sign NaN = 0"
| "js_sign NegInf = - 1"
| "js_sign PosInf = 1"
| "js_sign (Fin a) = (if a < 0 then - 1 else if a = 0 then 0 else 1)"

fun js_mul :: "jsnum \<Rightarrow> jsnum \<Rightarrow> jsnum" where
  "js_mul NaN _ = NaN"
| "js_mul _ NaN = NaN"
| "js_mul (Fin a) (Fin b) = Fin (a * b)"
| "js_mul a b =
     (if js_sign a * js_sign b = 0 then NaN
      else if js_sign a * js_sign b < 0 then NegInf else PosInf)"

text \<open>\<^verbatim>\<open>Math.max(a, b)\<close>: NaN as soon as one argument is NaN.\<close>

fun Math_max :: "jsnum \<Rightarrow> jsnum \<Rightarrow> jsnum" where
  "Math_max NaN _ = NaN"
| "Math_max _ NaN = NaN"
| "Math_max a b = (if js_lt a b then b else a)"

text \<open>
  \<^verbatim>\<open>x || 0\<close> on a number: NaN and zero are falsy and give 0, every other number is kept.
\<close>

fun or_zero :: "jsnum \<Rightarrow> jsnum" where
  "or_zero NaN = Fin 0"
| "or_zero x = x"

text \<open>
  \<^verbatim>\<open>parseFloat(x.toFixed(d))\<close>, as a number. \<^verbatim>\<open>toFixed\<close> takes the integer \<open>n\<close> with
  \<open>n / 10^d\<close> closest to \<open>|x|\<close> (the larger one on a tie) and puts the sign back; from
  \<open>10^21\<close> on, and for NaN and the infinities, it prints the number itself, which
  \<^verbatim>\<open>parseFloat\<close> reads back.
\<close>

fun toFixed_num :: "nat \<Rightarrow> jsnum \<Rightarrow> jsnum" where
  "toFixed_num d (Fin x) =
     (if \<bar>x\<bar> \<ge> 10 ^ 21 then Fin x
      else if x < 0 then Fin (- (real_of_int \<lfloor>- x * 10 ^ d + 1 / 2\<rfloor> / 10 ^ d))
      else Fin (real_of_int \<lfloor>x * 10 ^ d + 1 / 2\<rfloor> / 10 ^ d))"
| "toFixed_num d x = x"

section \<open>Risk classification\<close>

datatype risk = NoFlood | Warning | HighRisk | SevereFlood

text \<open>
  \<^verbatim>\<open>risk_classes[i]\<close>: reading past the end of the array gives \<^verbatim>\<open>undefined\<close>, which a
  relational comparison converts to NaN.
\<close>

definition at_num :: "jsnum list \<Rightarrow> nat \<Rightarrow> jsnum" where
  "at_num xs i = (if i < length xs then xs ! i else NaN)"

text \<open>\<^verbatim>\<open>classifyRisk(twl, thresh, risk_classes)\<close>, script.js lines 257-262.\<close>

definition classifyRisk :: "jsnum \<Rightarrow> jsnum \<Rightarrow> jsnum list \<Rightarrow> risk" where
  "classifyRisk twl thresh risk_classes =
     (if js_lt twl thresh then NoFlood
      else if js_lt twl (at_num risk_classes 0) then Warning
      else if js_lt twl (at_num risk_classes 1) then HighRisk
      else SevereFlood)"

text \<open>The order of the four levels, used to state that the classification is monotone.\<close>

fun risk_rank :: "risk \<Rightarrow> nat" where
  "risk_rank NoFlood = 0"
| "risk_rank Warning = 1"
| "risk_rank HighRisk = 2"
| "risk_rank SevereFlood = 3"

section \<open>JavaScript strings\<close>

text \<open>
  Strings are lists of characters whose code is below 256. The helpers are the String
  methods that the two CSV parsers call.
\<close>

text \<open>White space and line terminators, as \<^verbatim>\<open>trim\<close> and \<^verbatim>\<open>parseFloat\<close> skip them.\<close>

definition is_ws :: "char \<Rightarrow> bool" where
  "is_ws c = (c \<in> set [CHR 0x09, CHR 0x0A, CHR 0x0B, CHR 0x0C, CHR 0x0D, CHR 0x20, CHR 0xA0])"

definition trim :: "string \<Rightarrow> string" where
  "trim s = rev (dropWhile is_ws (rev (dropWhile is_ws s)))"

text \<open>\<^verbatim>\<open>s.split(c)\<close> for a one-character separator: never empty, \<^verbatim>\<open>"".split(",")\<close> is \<^verbatim>\<open>[""]\<close>.\<close>

fun split_on :: "char \<Rightarrow> string \<Rightarrow> string list" where
  "split_on c [] = [[]]"
| "split_on c (x # xs) =
     (if x = c then [] # split_on c xs
      else (case split_on c xs of [] \<Rightarrow> [[x]] | l # ls \<Rightarrow> (x # l) # ls))"

text \<open>\<^verbatim>\<open>s.split(/\r?\n/)\<close>: a line ends at a line feed, with the carriage return before it.\<close>

fun split_lines :: "string \<Rightarrow> string list" where
  "split_lines [] = [[]]"
| "split_lines [x] = (if x = CHR 0x0A then [[], []] else [[x]])"
| "split_lines (x # y # xs) =
     (if x = CHR 0x0D \<and> y = CHR 0x0A then [] # split_lines xs
      else if x = CHR 0x0A then [] # split_lines (y # xs)
      else (case split_lines (y # xs) of [] \<Rightarrow> [[x]] | l # ls \<Rightarrow> (x # l) # ls))"

text \<open>\<^verbatim>\<open>s.replace(/"/g, '')\<close>.\<close>

definition strip_quotes :: "string \<Rightarrow> string" where
  "strip_quotes s = filter (\<lambda>c. c \<noteq> CHR 0x22) s"

text \<open>\<^verbatim>\<open>s.toLowerCase()\<close> on the letters below code 256.\<close>

definition lower_char :: "char \<Rightarrow> char" where
  "lower_char c =
     (let n = (of_char c :: nat)
      in if (65 \<le> n \<and> n \<le> 90) \<or> (192 \<le> n \<and> n \<le> 222 \<and> n \<noteq> 215)
         then char_of (n + 32) else c)"

definition toLowerCase :: "string \<Rightarrow> string" where
  "toLowerCase s = map lower_char s"

text \<open>\<^verbatim>\<open>s.includes(t)\<close>: \<open>t\<close> occurs in \<open>s\<close> as a contiguous run.\<close>

fun str_includes :: "string \<Rightarrow> string \<Rightarrow> bool" where
  "str_includes [] t = (t = [])"
| "str_includes (x # xs) t = (take (length t) (x # xs) = t \<or> str_includes xs t)"

text \<open>\<^verbatim>\<open>xs.findIndex(p)\<close>: \<open>None\<close> stands for the result -1.\<close>

fun findIndex :: "('a \<Rightarrow> bool) \<Rightarrow> 'a list \<Rightarrow> nat option" where
  "findIndex p [] = None"
| "findIndex p (x # xs) =
     (if p x then Some 0 else map_option Suc (findIndex p xs))"

text \<open>
  \<^verbatim>\<open>parseFloat(s)\<close>: skip leading white space, then read the longest prefix that is a
  decimal literal (sign, \<^verbatim>\<open>Infinity\<close>, digits, a fraction, an exponent); NaN when there
  is none. The value is exact.
\<close>

definition is_digit :: "char \<Rightarrow> bool" where
  "is_digit c = (48 \<le> (of_char c :: nat) \<and> (of_char c :: nat) \<le> 57)"

definition digits_val :: "string \<Rightarrow> nat" where
  "digits_val ds = foldl (\<lambda>n c. 10 * n + ((of_char c :: nat) - 48)) 0 ds"

definition exponent_part :: "string \<Rightarrow> bool \<times> nat" where
  "exponent_part r =
     (case r of
        [] \<Rightarrow> (False, 0)
      | e # r1 \<Rightarrow>
          if e = CHR ''e'' \<or> e = CHR ''E'' then
            (let r2 = (case r1 of [] \<Rightarrow> [] | g # r3 \<Rightarrow>
                         if g = CHR ''+'' \<or> g = CHR ''-'' then r3 else r1);
                 down = (case r1 of [] \<Rightarrow> False | g # r3 \<Rightarrow> g = CHR ''-'');
                 ds = takeWhile is_digit r2
             in if ds = [] then (False, 0) else (down, digits_val ds))
          else (False, 0))"

definition parseFloat :: "string \<Rightarrow> jsnum" where
  "parseFloat s =
     (let t = dropWhile is_ws s;
          minus = (case t of [] \<Rightarrow> False | g # r \<Rightarrow> g = CHR ''-'');
          u = (case t of [] \<Rightarrow> [] | g # r \<Rightarrow>
                 if g = CHR ''+'' \<or> g = CHR ''-'' then r else t)
      in if take 8 u = ''Infinity'' then (if minus then NegInf else PosInf)
         else
           (let ip = takeWhile is_digit u;
                r1 = dropWhile is_digit u;
                fp = (case r1 of [] \<Rightarrow> [] | g # r \<Rightarrow>
                        if g = CHR ''.'' then takeWhile is_digit r else []);
                r2 = (case r1 of [] \<Rightarrow> [] | g # r \<Rightarrow>
                        if g = CHR ''.'' then dropWhile is_digit r else r1)
            in if ip = [] \<and> fp = [] then NaN
               else
                 (let m = real (digits_val ip) + real (digits_val fp) / 10 ^ length fp;
                      ex = exponent_part r2;
                      v = (if fst ex then m / 10 ^ snd ex else m * 10 ^ snd ex)
                  in Fin (if minus then - v else v))))"

text \<open>
  \<^verbatim>\<open>parseFloat(undefined)\<close> is NaN: an absent cell is \<open>None\<close>.
\<close>

definition parseFloat_opt :: "string option \<Rightarrow> jsnum" where
  "parseFloat_opt c = (case c of None \<Rightarrow> NaN | Some s \<Rightarrow> parseFloat s)"

section \<open>Forecast CSV parser\<close>

text \<open>
  Thrown values: a TypeError (a method called on \<^verbatim>\<open>undefined\<close>, a rejected \<^verbatim>\<open>fetch\<close> or
  body read), a SyntaxError (a body that is not JSON) and \<^verbatim>\<open>new Error(message)\<close>.
\<close>

datatype js_error = TypeError | SyntaxError | Error string

definition NUM_DAYS :: nat where
  "NUM_DAYS = 7"

definition TIME_INTERVAL_MINUTES :: nat where
  "TIME_INTERVAL_MINUTES = 10"

definition DATA_POINTS_PER_HOUR :: nat where
  "DATA_POINTS_PER_HOUR = 60 div TIME_INTERVAL_MINUTES"

definition DATA_POINTS_PER_DAY :: nat where
  "DATA_POINTS_PER_DAY = 24 * DATA_POINTS_PER_HOUR"

record daily_entry =
  date :: string
  fullDate :: string
  max_water_level :: jsnum
  risk :: risk

record forecast =
  daily :: "daily_entry list"
  hourly :: "jsnum list"

text \<open>
  A site as \<^verbatim>\<open>transformRawSites\<close> builds it. The field \<^verbatim>\<open>id\<close> is called \<open>site_id\<close> and
  \<^verbatim>\<open>name\<close> is called \<open>site_name\<close>.
\<close>

record site =
  site_id :: string
  site_name :: string
  lat :: jsnum
  lng :: jsnum
  threshold :: jsnum
  risk_class :: "jsnum list"
  forecastData :: "forecast option"

record raw_row =
  timestamp :: string
  twl :: jsnum

text \<open>
  \<^verbatim>\<open>getForecastDate(i)\<close> formats the run date plus \<open>i\<close> days with
  \<^verbatim>\<open>toLocaleDateString('en-US', {weekday:'long', month:'short', day:'numeric', year:'numeric'})\<close>,
  which prints \<^verbatim>\<open>Saturday, Dec 6, 2025\<close>. The calendar is a parameter \<open>cal\<close> that
  gives the three parts for each day index; the run date
  \<^verbatim>\<open>SELECTED_RUNTIME_DATE\<close> is always a date that the date picker accepted.
\<close>

datatype locale_date = LocaleDate string string string

fun toLocaleDateString :: "locale_date \<Rightarrow> string" where
  "toLocaleDateString (LocaleDate wd md yr) = wd @ '', '' @ md @ '', '' @ yr"

definition getForecastDate :: "(nat \<Rightarrow> locale_date) \<Rightarrow> nat \<Rightarrow> string" where
  "getForecastDate cal dayIndex = toLocaleDateString (cal dayIndex)"

text \<open>\<^verbatim>\<open>xs.slice(a, b)\<close> for \<open>0 \<le> a \<le> b\<close>.\<close>

definition slice :: "'a list \<Rightarrow> nat \<Rightarrow> nat \<Rightarrow> 'a list" where
  "slice xs a b = take (b - a) (drop a xs)"

text \<open>
  The body of the \<^verbatim>\<open>forEach\<close> over the data rows (lines 338-347): a row is kept when it
  has the TWL column and the cell is a number.
\<close>

fun rawTWLData :: "nat \<Rightarrow> string list \<Rightarrow> raw_row list" where
  "rawTWLData k [] = []"
| "rawTWLData k (line # rest) =
     (let cols = split_on CHR '','' line
      in if length cols > k then
           (let tw = parseFloat (cols ! k)
            in if \<not> isNaN tw
               then \<lparr>timestamp = cols ! 0, twl = tw\<rparr> # rawTWLData k rest
               else rawTWLData k rest)
         else rawTWLData k rest)"

text \<open>
  One pass of the daily loop body after the length test (lines 358-368).
  \<^verbatim>\<open>fullDate.split(',')[1].trim()\<close> throws a TypeError when the label has no comma.
\<close>

definition dailyEntry :: "(nat \<Rightarrow> locale_date) \<Rightarrow> site \<Rightarrow> raw_row list \<Rightarrow> nat
    \<Rightarrow> js_error + daily_entry" where
  "dailyEntry cal st dayTWLData i =
     (let max_twl = foldl (\<lambda>mx item. Math_max mx (twl item)) (Fin 0) dayTWLData;
          rk = classifyRisk max_twl (threshold st) (risk_class st);
          fd = getForecastDate cal i
      in case split_on CHR '','' fd of
           a # b # rest \<Rightarrow>
             Inr \<lparr>date = trim b, fullDate = fd,
                  max_water_level = toFixed_num 3 max_twl, risk = rk\<rparr>
         | _ \<Rightarrow> Inl TypeError)"

text \<open>
  The \<^verbatim>\<open>for\<close> loop of lines 351-369, from day \<open>i\<close> on, with the entries pushed so far.
  The test \<^verbatim>\<open>dayTWLData.length < DATA_POINTS_PER_DAY / 4\<close> is written without the
  division.
\<close>

function dailyLoop :: "(nat \<Rightarrow> locale_date) \<Rightarrow> site \<Rightarrow> raw_row list \<Rightarrow> nat
    \<Rightarrow> daily_entry list \<Rightarrow> js_error + daily_entry list" where
  "dailyLoop cal st raw i dailyData =
     (if i < NUM_DAYS then
        (let startIdx = i * DATA_POINTS_PER_DAY;
             endIdx = startIdx + DATA_POINTS_PER_DAY;
             dayTWLData = slice raw startIdx endIdx
         in if 4 * length dayTWLData < DATA_POINTS_PER_DAY then Inr dailyData
            else (case dailyEntry cal st dayTWLData i of
                    Inl e \<Rightarrow> Inl e
                  | Inr d \<Rightarrow> dailyLoop cal st raw (Suc i) (dailyData @ [d])))
      else Inr dailyData)"
  by pat_completeness auto
termination
  by (relation "measure (\<lambda>(cal, st, raw, i, dailyData). NUM_DAYS - i)") auto

text \<open>\<^verbatim>\<open>xs.filter((_, index) => p(index))\<close>.\<close>

definition filter_index :: "(nat \<Rightarrow> bool) \<Rightarrow> 'a list \<Rightarrow> 'a list" where
  "filter_index p xs = map snd (filter (\<lambda>(i, x). p i) (enumerate 0 xs))"

definition fullHourlyData :: "raw_row list \<Rightarrow> jsnum list" where
  "fullHourlyData raw =
     map (\<lambda>item. toFixed_num 3 (twl item))
       (filter_index (\<lambda>index. index mod DATA_POINTS_PER_HOUR = 0) raw)"

text \<open>The header lookup of line 328.\<close>

definition twlColumnIndex :: "string list \<Rightarrow> nat option" where
  "twlColumnIndex header =
     findIndex (\<lambda>h. toLowerCase (trim h) = ''total_water_level'') header"

text \<open>\<^verbatim>\<open>parseForecastCSV(csvText, site)\<close>, lines 323-377.\<close>

definition parseForecastCSV :: "(nat \<Rightarrow> locale_date) \<Rightarrow> string \<Rightarrow> site
    \<Rightarrow> js_error + forecast" where
  "parseForecastCSV cal csvText st =
     (let lines = split_on CHR 0x0A (trim csvText)
      in if length lines < 2 then Inr \<lparr>daily = [], hourly = []\<rparr>
         else
           (case twlColumnIndex (split_on CHR '','' (hd lines)) of
              None \<Rightarrow> Inr \<lparr>daily = [], hourly = []\<rparr>
            | Some k \<Rightarrow>
                (let raw = rawTWLData k (tl lines)
                 in case dailyLoop cal st raw 0 [] of
                      Inl e \<Rightarrow> Inl e
                    | Inr dailyData \<Rightarrow>
                        Inr \<lparr>daily = dailyData, hourly = fullHourlyData raw\<rparr>)))"

text \<open>
  The retained rows of a CSV text, as \<^verbatim>\<open>parseForecastCSV\<close> computes them: \<open>None\<close> when the
  text has fewer than two lines or no TWL column.
\<close>

definition retainedRows :: "string \<Rightarrow> raw_row list option" where
  "retainedRows csvText =
     (let lines = split_on CHR 0x0A (trim csvText)
      in if length lines < 2 then None
         else map_option (\<lambda>k. rawTWLData k (tl lines))
                (twlColumnIndex (split_on CHR '','' (hd lines))))"

section \<open>Historical event CSV parser\<close>

text \<open>
  An event as \<^verbatim>\<open>parseXtremEventCSV\<close> pushes it. The field \<^verbatim>\<open>id\<close> is called \<open>event_id\<close>. The
  display label \<^verbatim>\<open>name\<close>, a text made of the id and of the peak printed with two
  decimals, is left out: no other part of the pipeline reads it.
\<close>

record event =
  event_id :: string
  twl_components :: "jsnum list"
  twl_peak :: jsnum
  Hs :: jsnum
  dur_h :: jsnum

text \<open>The seven column positions of lines 846-852; \<open>None\<close> stands for -1.\<close>

record xtrem_columns =
  dateIdx :: "nat option"
  twlIdx :: "nat option"
  tideIdx :: "nat option"
  surgeIdx :: "nat option"
  runupIdx :: "nat option"
  hsIdx :: "nat option"
  durIdx :: "nat option"

text \<open>
  \<^verbatim>\<open>cols[idx]?.trim().replace(/"/g, '')\<close>: \<^verbatim>\<open>undefined\<close> (here \<open>None\<close>) when the index is -1
  or past the end of the row.
\<close>

definition cell :: "string list \<Rightarrow> nat option \<Rightarrow> string option" where
  "cell cols idx =
     (case idx of
        None \<Rightarrow> None
      | Some i \<Rightarrow> if i < length cols then Some (strip_quotes (trim (cols ! i))) else None)"

text \<open>The values that the loop body reads from one line (lines 862-872).\<close>

definition row_date :: "xtrem_columns \<Rightarrow> string \<Rightarrow> string option" where
  "row_date cs line = cell (split_on CHR '','' line) (dateIdx cs)"

definition row_peak :: "xtrem_columns \<Rightarrow> string \<Rightarrow> jsnum" where
  "row_peak cs line = parseFloat_opt (cell (split_on CHR '','' line) (twlIdx cs))"

definition row_tide :: "xtrem_columns \<Rightarrow> string \<Rightarrow> jsnum" where
  "row_tide cs line = or_zero (parseFloat_opt (cell (split_on CHR '','' line) (tideIdx cs)))"

definition row_surge :: "xtrem_columns \<Rightarrow> string \<Rightarrow> jsnum" where
  "row_surge cs line = or_zero (parseFloat_opt (cell (split_on CHR '','' line) (surgeIdx cs)))"

definition row_runup :: "xtrem_columns \<Rightarrow> string \<Rightarrow> jsnum" where
  "row_runup cs line = or_zero (parseFloat_opt (cell (split_on CHR '','' line) (runupIdx cs)))"

definition row_hsig :: "xtrem_columns \<Rightarrow> string \<Rightarrow> jsnum" where
  "row_hsig cs line = or_zero (parseFloat_opt (cell (split_on CHR '','' line) (hsIdx cs)))"

definition row_durh :: "xtrem_columns \<Rightarrow> string \<Rightarrow> jsnum" where
  "row_durh cs line = or_zero (parseFloat_opt (cell (split_on CHR '','' line) (durIdx cs)))"

text \<open>The test of line 875, and the surge after lines 875-877.\<close>

definition surge_is_residual :: "xtrem_columns \<Rightarrow> string \<Rightarrow> bool" where
  "surge_is_residual cs line =
     (surgeIdx cs = None \<or> js_le (row_surge cs line) (Fin 0)
      \<or> js_gt (js_add (js_add (row_surge cs line) (row_tide cs line)) (row_runup cs line))
           (js_mul (row_peak cs line) (Fin (105 / 100))))"

definition residual_surge :: "xtrem_columns \<Rightarrow> string \<Rightarrow> jsnum" where
  "residual_surge cs line =
     toFixed_num 3 (js_sub (js_sub (row_peak cs line) (row_tide cs line)) (row_runup cs line))"

definition corrected_surge :: "xtrem_columns \<Rightarrow> string \<Rightarrow> jsnum" where
  "corrected_surge cs line =
     (if surge_is_residual cs line then residual_surge cs line else row_surge cs line)"

text \<open>A string is truthy when it is defined and not empty.\<close>

definition truthy_str :: "string option \<Rightarrow> bool" where
  "truthy_str s = (case s of None \<Rightarrow> False | Some t \<Rightarrow> t \<noteq> [])"

text \<open>The acceptance test of line 879.\<close>

definition row_accepted :: "xtrem_columns \<Rightarrow> string \<Rightarrow> bool" where
  "row_accepted cs line =
     (truthy_str (row_date cs line) \<and> \<not> isNaN (row_peak cs line)
      \<and> js_gt (row_peak cs line) (Fin 0) \<and> js_ge (row_tide cs line) (Fin 0)
      \<and> js_ge (corrected_surge cs line) (Fin 0) \<and> js_ge (row_runup cs line) (Fin 0))"

text \<open>The body of the \<^verbatim>\<open>forEach\<close> of lines 861-890: the event pushed for a line, if any.\<close>

definition xtremRow :: "xtrem_columns \<Rightarrow> string \<Rightarrow> event option" where
  "xtremRow cs line =
     (if row_accepted cs line then
        (case row_date cs line of
           None \<Rightarrow> None
         | Some dateStr \<Rightarrow>
             Some \<lparr>event_id = dateStr,
                   twl_components = [row_tide cs line, corrected_surge cs line, row_runup cs line],
                   twl_peak = row_peak cs line,
                   Hs = row_hsig cs line,
                   dur_h = row_durh cs line\<rparr>)
      else None)"

text \<open>The header of lines 843-852.\<close>

definition xtremHeader :: "string \<Rightarrow> xtrem_columns" where
  "xtremHeader first_line =
     (let header = map (\<lambda>h. toLowerCase (trim h)) (split_on CHR '','' (strip_quotes first_line))
      in \<lparr>dateIdx = findIndex (\<lambda>h. str_includes h ''peak_date_time'') header,
          twlIdx = findIndex (\<lambda>h. str_includes h ''peak_value'') header,
          tideIdx = findIndex (\<lambda>h. str_includes h ''tide'') header,
          surgeIdx = findIndex (\<lambda>h. str_includes h ''ssh'') header,
          runupIdx = findIndex (\<lambda>h. str_includes h ''runup'') header,
          hsIdx = findIndex (\<lambda>h. str_includes h ''significant'') header,
          durIdx = findIndex (\<lambda>h. str_includes h ''duration_hours'') header\<rparr>)"

text \<open>\<^verbatim>\<open>parseXtremEventCSV(csvText)\<close>, lines 838-892.\<close>

definition parseXtremEventCSV :: "string \<Rightarrow> event list" where
  "parseXtremEventCSV csvText =
     (let lines = split_lines (trim csvText)
      in if length lines < 2 then []
         else
           (let cs = xtremHeader (hd lines)
            in if dateIdx cs = None \<or> twlIdx cs = None then []
               else List.map_filter (xtremRow cs) (tl lines)))"

section \<open>Sorting the events\<close>

text \<open>
  \<^verbatim>\<open>Array.prototype.sort(comparefn)\<close> as a stable insertion sort: an element moves behind
  those that the comparator puts before it (a positive result); a NaN result counts as 0.
  When the comparator is a consistent order this is the result that ECMAScript fixes; for
  other comparators the standard leaves the order to the engine, and this is one of the
  orders it allows.
\<close>

fun sort_insert :: "('a \<Rightarrow> 'a \<Rightarrow> jsnum) \<Rightarrow> 'a \<Rightarrow> 'a list \<Rightarrow> 'a list" where
  "sort_insert cmp x [] = [x]"
| "sort_insert cmp x (y # ys) =
     (if js_gt (cmp x y) (Fin 0) then y # sort_insert cmp x ys else x # y # ys)"

definition Array_sort :: "('a \<Rightarrow> 'a \<Rightarrow> jsnum) \<Rightarrow> 'a list \<Rightarrow> 'a list" where
  "Array_sort cmp xs = foldr (sort_insert cmp) xs []"

text \<open>
  \<^verbatim>\<open>new Date(s)\<close> as a number: the time value, NaN for an invalid date. How a text is read
  as a date is a parameter \<open>dateParse\<close>, with \<open>None\<close> for an invalid date.
\<close>

definition timeValue :: "(string \<Rightarrow> real option) \<Rightarrow> string \<Rightarrow> jsnum" where
  "timeValue dateParse s = (case dateParse s of None \<Rightarrow> NaN | Some t \<Rightarrow> Fin t)"

text \<open>The comparator of line 926: \<^verbatim>\<open>(a, b) => new Date(b.id) - new Date(a.id)\<close>.\<close>

definition byDateDescending :: "(string \<Rightarrow> real option) \<Rightarrow> event \<Rightarrow> event \<Rightarrow> jsnum" where
  "byDateDescending dateParse a b =
     js_sub (timeValue dateParse (event_id b)) (timeValue dateParse (event_id a))"

section \<open>Release assets and the network\<close>

text \<open>The constants of \<^verbatim>\<open>CONFIG\<close>, lines 5-16.\<close>

definition REPO_OWNER :: string where
  "REPO_OWNER = ''safecoastpro''"

definition REPO_NAME :: string where
  "REPO_NAME = ''safecoastpro.github.io''"

definition RELEASE_TAG :: string where
  "RELEASE_TAG = ''twl_update_latest''"

definition GITHUB_API_BASE :: string where
  "GITHUB_API_BASE = ''https://api.github.com/repos/''"



text \<open>
  The release metadata that the GitHub API returns, as far as the program reads it: an
  asset has a name and a download URL; \<open>assets\<close> is \<open>None\<close> when the property is missing.
\<close>

record asset =
  asset_name :: string
  browser_download_url :: string

record release =
  assets :: "asset list option"

text \<open>An entry of the site registry file.\<close>

record raw_site =
  raw_key :: string
  city :: string
  lat_cible :: jsnum
  lon_cible :: jsnum
  raw_threshold :: jsnum
  raw_risk_class :: "jsnum list"

text \<open>
  A response of \<^verbatim>\<open>fetch\<close>. The body is given by what the program can ask of it:
  \<open>text_body\<close> is the result of \<^verbatim>\<open>response.text()\<close>, \<open>json_release\<close> and \<open>json_sites\<close> are the
  result of \<^verbatim>\<open>response.json()\<close> read as release metadata and as site registry. \<open>None\<close>
  means that the call throws; for \<open>json_release\<close> also that the value is falsy.
\<close>

record response =
  ok :: bool
  status :: nat
  statusText :: string
  text_body :: "string option"
  json_release :: "release option"
  json_sites :: "raw_site list option"

text \<open>A fetch either throws (a network fault) or gives a response.\<close>

datatype fetched = NetworkFault | Response response

text \<open>
  The network answers a request according to the URL and to the number of requests made
  before it, so that the same URL may be answered differently later.
\<close>

type_synonym network = "nat \<Rightarrow> string \<Rightarrow> fetched"

text \<open>An event catalog: the object \<^verbatim>\<open>{count, events}\<close>.\<close>

record catalog =
  count :: nat
  events :: "event list"

text \<open>
  The mutable state: the two caches \<^verbatim>\<open>RELEASE_INFO\<close> and \<^verbatim>\<open>EVENT_DATA_CACHE\<close>, the
  catalog objects created so far (a reference is a position in \<open>heap\<close>) and the URLs
  fetched so far. Site ids are data keys; the properties that \<^verbatim>\<open>EVENT_DATA_CACHE\<close> inherits
  from \<^verbatim>\<open>Object.prototype\<close> are not site ids.
\<close>

record js_state =
  RELEASE_INFO :: "release option"
  EVENT_DATA_CACHE :: "string \<rightharpoonup> nat"
  heap :: "catalog list"
  requests :: "string list"

definition initial_state :: js_state where
  "initial_state = \<lparr>RELEASE_INFO = None, EVENT_DATA_CACHE = Map.empty, heap = [], requests = []\<rparr>"

definition fetch :: "network \<Rightarrow> js_state \<Rightarrow> string \<Rightarrow> fetched \<times> js_state" where
  "fetch net st url = (net (length (requests st)) url, st\<lparr>requests := requests st @ [url]\<rparr>)"

text \<open>A new object \<^verbatim>\<open>{count: c, events: es}\<close>: its reference and the new state.\<close>

definition new_catalog :: "js_state \<Rightarrow> catalog \<Rightarrow> nat \<times> js_state" where
  "new_catalog st c = (length (heap st), st\<lparr>heap := heap st @ [c]\<rparr>)"

definition release_url :: string where
  "release_url = GITHUB_API_BASE @ REPO_OWNER @ ''/'' @ REPO_NAME @ ''/releases/tags/'' @ RELEASE_TAG"

text \<open>
  \<^verbatim>\<open>getReleaseInfo()\<close>, lines 43-63. Every failure inside the \<^verbatim>\<open>try\<close> ends in the
  \<^verbatim>\<open>catch\<close>, which returns \<^verbatim>\<open>null\<close>.
\<close>

definition getReleaseInfo :: "network \<Rightarrow> js_state \<Rightarrow> release option \<times> js_state" where
  "getReleaseInfo net st =
     (case RELEASE_INFO st of
        Some info \<Rightarrow> (Some info, st)
      | None \<Rightarrow>
          (case fetch net st release_url of
             (NetworkFault, st1) \<Rightarrow> (None, st1)
           | (Response r, st1) \<Rightarrow>
               if \<not> ok r then (None, st1)
               else (case json_release r of
                       None \<Rightarrow> (None, st1)
                     | Some info \<Rightarrow> (Some info, st1\<lparr>RELEASE_INFO := Some info\<rparr>))))"

text \<open>\<^verbatim>\<open>getAssetDownloadUrl(filename)\<close>, lines 70-81; \<open>None\<close> stands for \<^verbatim>\<open>null\<close>.\<close>

definition getAssetDownloadUrl :: "network \<Rightarrow> js_state \<Rightarrow> string \<Rightarrow> string option \<times> js_state" where
  "getAssetDownloadUrl net st filename =
     (case getReleaseInfo net st of
        (None, st1) \<Rightarrow> (None, st1)
      | (Some info, st1) \<Rightarrow>
          (case assets info of
             None \<Rightarrow> (None, st1)
           | Some as \<Rightarrow>
               (case find (\<lambda>a. asset_name a = filename) as of
                  None \<Rightarrow> (None, st1)
                | Some a \<Rightarrow> (Some (browser_download_url a), st1))))"

text \<open>\<^verbatim>\<open>!url\<close>: \<^verbatim>\<open>null\<close> and the empty string are falsy.\<close>

definition falsy_url :: "string option \<Rightarrow> bool" where
  "falsy_url u = (case u of None \<Rightarrow> True | Some s \<Rightarrow> s = [])"

section \<open>Event catalog cache\<close>

definition empty_catalog :: catalog where
  "empty_catalog = \<lparr>count = 0, events = []\<rparr>"

text \<open>\<^verbatim>\<open>EVENT_DATA_CACHE[siteId] = {...}; return EVENT_DATA_CACHE[siteId];\<close>\<close>

definition cache_and_return :: "js_state \<Rightarrow> string \<Rightarrow> catalog \<Rightarrow> nat \<times> js_state" where
  "cache_and_return st siteId c =
     (case new_catalog st c of
        (ref, st1) \<Rightarrow> (ref, st1\<lparr>EVENT_DATA_CACHE := (EVENT_DATA_CACHE st1)(siteId \<mapsto> ref)\<rparr>))"

text \<open>
  The \<^verbatim>\<open>try\<close> block of lines 913-935: \<open>Inl\<close> when \<^verbatim>\<open>fetch\<close> or \<^verbatim>\<open>response.text()\<close> throws.
\<close>

definition xtremTry :: "(string \<Rightarrow> real option) \<Rightarrow> network \<Rightarrow> js_state \<Rightarrow> string \<Rightarrow> string
    \<Rightarrow> (js_error + nat) \<times> js_state" where
  "xtremTry dateParse net st siteId finalUrl =
     (case fetch net st finalUrl of
        (NetworkFault, st1) \<Rightarrow> (Inl TypeError, st1)
      | (Response r, st1) \<Rightarrow>
          if \<not> ok r then
            (case cache_and_return st1 siteId empty_catalog of (ref, st2) \<Rightarrow> (Inr ref, st2))
          else
            (case text_body r of
               None \<Rightarrow> (Inl TypeError, st1)
             | Some csvText \<Rightarrow>
                 (let evs = Array_sort (byDateDescending dateParse) (parseXtremEventCSV csvText);
                      result = \<lparr>count = length evs, events = evs\<rparr>
                  in case cache_and_return st1 siteId result of
                       (ref, st2) \<Rightarrow> (Inr ref, st2))))"

text \<open>
  \<^verbatim>\<open>fetchAndParseXtremEvents(siteId)\<close>, lines 897-941. The result is \<open>Inr\<close> of the reference
  of the catalog object, or \<open>Inl\<close> of an error thrown to the caller.
\<close>

definition fetchAndParseXtremEvents :: "(string \<Rightarrow> real option) \<Rightarrow> network \<Rightarrow> js_state \<Rightarrow> string
    \<Rightarrow> (js_error + nat) \<times> js_state" where
  "fetchAndParseXtremEvents dateParse net st siteId =
     (case EVENT_DATA_CACHE st siteId of
        Some ref \<Rightarrow> (Inr ref, st)
      | None \<Rightarrow>
          (let assetName = ''Xtrem_all_var_'' @ siteId @ ''.csv''
           in case getAssetDownloadUrl net st assetName of
                (finalUrl, st1) \<Rightarrow>
                  if falsy_url finalUrl then
                    (case cache_and_return st1 siteId empty_catalog of
                       (ref, st2) \<Rightarrow> (Inr ref, st2))
                  else
                    (case xtremTry dateParse net st1 siteId (the finalUrl) of
                       (Inr ref, st2) \<Rightarrow> (Inr ref, st2)
                     | (Inl e, st2) \<Rightarrow>
                         (case cache_and_return st2 siteId empty_catalog of
                            (ref, st3) \<Rightarrow> (Inr ref, st3)))))"

text \<open>\<^verbatim>\<open>getSiteEvents(siteId)\<close>, lines 946-948.\<close>

definition getSiteEvents :: "(string \<Rightarrow> real option) \<Rightarrow> network \<Rightarrow> js_state \<Rightarrow> string
    \<Rightarrow> (js_error + nat) \<times> js_state" where
  "getSiteEvents dateParse net st siteId = fetchAndParseXtremEvents dateParse net st siteId"

text \<open>Calls of \<^verbatim>\<open>getSiteEvents\<close> one after the other, each awaited: the state at the end.\<close>

fun getSiteEvents_each :: "(string \<Rightarrow> real option) \<Rightarrow> network \<Rightarrow> js_state \<Rightarrow> string list
    \<Rightarrow> js_state" where
  "getSiteEvents_each dateParse net st [] = st"
| "getSiteEvents_each dateParse net st (s # ss) =
     getSiteEvents_each dateParse net (snd (getSiteEvents dateParse net st s)) ss"

section \<open>Fetching the forecast of a site\<close>




section \<open>Fetching the site registry\<close>





section \<open>Notions used to state the forecast properties\<close>

text \<open>The rows of day \<open>i\<close>: the slice that the daily loop takes at line 354.\<close>

definition day_window :: "raw_row list \<Rightarrow> nat \<Rightarrow> raw_row list" where
  "day_window raw i = slice raw (i * DATA_POINTS_PER_DAY) (i * DATA_POINTS_PER_DAY + DATA_POINTS_PER_DAY)"

text \<open>The \<^verbatim>\<open>reduce\<close> of line 358 on a window.\<close>

definition window_max :: "raw_row list \<Rightarrow> jsnum" where
  "window_max w = foldl (\<lambda>mx item. Math_max mx (twl item)) (Fin 0) w"

text \<open>The entry that the loop pushes for day \<open>i\<close>.\<close>

definition day_entry :: "(nat \<Rightarrow> locale_date) \<Rightarrow> site \<Rightarrow> raw_row list \<Rightarrow> nat \<Rightarrow> daily_entry" where
  "day_entry cal st raw i = projr (dailyEntry cal st (day_window raw i) i)"

text \<open>
  The number of days that the loop emits for \<open>n\<close> retained rows: day \<open>i\<close> is emitted when
  at least 36 rows start at index \<open>144 * i\<close>.
\<close>

definition day_count :: "nat \<Rightarrow> nat" where
  "day_count n = min NUM_DAYS ((n + 108) div 144)"

text \<open>Sample inputs: a calendar, a site and CSV texts of \<open>n\<close> identical data lines.\<close>

definition sample_calendar :: "nat \<Rightarrow> locale_date" where
  "sample_calendar i = LocaleDate ''Saturday'' ''Dec 6'' ''2025''"

definition sample_site :: site where
  "sample_site = \<lparr>site_id = ''TWL_Baguida_TOGO'', site_name = ''Baguida (TWL_BAGUIDA_TOGO)'',
     lat = Fin 6, lng = Fin 1, threshold = Fin 1, risk_class = [Fin 2, Fin 3],
     forecastData = None\<rparr>"

definition sample_csv :: "nat \<Rightarrow> string \<Rightarrow> string" where
  "sample_csv n line = ''time,total_water_level'' @ concat (replicate n (CHR 0x0A # line))"

section \<open>Notions used to state the event properties\<close>






text \<open>The events as they are stored in a catalog: parsed, then sorted (lines 923-926).\<close>

definition sortedEvents :: "(string \<Rightarrow> real option) \<Rightarrow> string \<Rightarrow> event list" where
  "sortedEvents dateParse csvText =
     Array_sort (byDateDescending dateParse) (parseXtremEventCSV csvText)"

text \<open>The catalog that a first call stores, from what the fetch of the asset gave.\<close>

definition fetched_catalog :: "(string \<Rightarrow> real option) \<Rightarrow> fetched \<Rightarrow> catalog" where
  "fetched_catalog dateParse f =
     (case f of
        NetworkFault \<Rightarrow> empty_catalog
      | Response r \<Rightarrow>
          if \<not> ok r then empty_catalog
          else (case text_body r of
                  None \<Rightarrow> empty_catalog
                | Some csvText \<Rightarrow>
                    \<lparr>count = length (sortedEvents dateParse csvText),
                     events = sortedEvents dateParse csvText\<rparr>))"

definition first_catalog :: "(string \<Rightarrow> real option) \<Rightarrow> network \<Rightarrow> js_state \<Rightarrow> string option
    \<Rightarrow> catalog" where
  "first_catalog dateParse net st1 u =
     (if falsy_url u then empty_catalog
      else fetched_catalog dateParse (net (length (requests st1)) (the u)))"

text \<open>Every cached catalog has \<^verbatim>\<open>count == events.length\<close>.\<close>

definition cache_consistent :: "js_state \<Rightarrow> bool" where
  "cache_consistent st =
     (\<forall>s ref. EVENT_DATA_CACHE st s = Some ref \<longrightarrow>
        ref < length (heap st) \<and> count (heap st ! ref) = length (events (heap st ! ref)))"

text \<open>
  Sample inputs: a catalog of two events in ascending date order, a reading of its two
  dates as milliseconds, a release that publishes the catalog of the site TOGO, a network
  that serves the release and the catalog and answers 404 otherwise, and a state in which
  the metadata of a release without assets is already memoized.
\<close>

definition two_events_csv :: string where
  "two_events_csv = ''peak_date_time,peak_value'' @ [CHR 0x0A] @ ''2019-03-01,1.8''
     @ [CHR 0x0A] @ ''2020-01-01,1.5''"

definition sample_dateParse :: "string \<Rightarrow> real option" where
  "sample_dateParse s =
     (if s = ''2019-03-01'' then Some 1551398400000
      else if s = ''2020-01-01'' then Some 1577836800000 else None)"

definition sample_asset_url :: string where
  "sample_asset_url = ''https://github.com/safecoastpro/safecoastpro.github.io/releases/download/twl_update_latest/Xtrem_all_var_TOGO.csv''"

definition sample_release :: release where
  "sample_release =
     \<lparr>assets = Some [\<lparr>asset_name = ''Xtrem_all_var_TOGO.csv'',
                       browser_download_url = sample_asset_url\<rparr>]\<rparr>"

definition not_found :: response where
  "not_found = \<lparr>ok = False, status = 404, statusText = ''Not Found'', text_body = Some [],
     json_release = None, json_sites = None\<rparr>"

definition sample_net :: network where
  "sample_net n url =
     (if url = release_url then
        Response \<lparr>ok = True, status = 200, statusText = ''OK'', text_body = None,
                  json_release = Some sample_release, json_sites = None\<rparr>
      else if url = sample_asset_url then
        Response \<lparr>ok = True, status = 200, statusText = ''OK'', text_body = Some two_events_csv,
                  json_release = None, json_sites = None\<rparr>
      else Response not_found)"

definition down_net :: network where
  "down_net n url = Response not_found"

definition no_assets_state :: js_state where
  "no_assets_state = \<lparr>RELEASE_INFO = Some \<lparr>assets = Some []\<rparr>, EVENT_DATA_CACHE = Map.empty,
     heap = [], requests = [release_url]\<rparr>"


text \<open>
  A release that publishes the site registry, and a network on which the published copy
  answers 404 while the local copy \<^verbatim>\<open>./sites_file.json\<close> is served.
\<close>

definition registry_url :: string where
  "registry_url = ''https://github.com/safecoastpro/safecoastpro.github.io/releases/download/twl_update_latest/sites_file.json''"


declare dailyLoop.simps [simp del]

lemma split_on_nonempty: "split_on c s \<noteq> []"
  by (induction s) (auto split: list.splits)

lemma split_on_two: "c \<in> set s \<Longrightarrow> \<exists>a b r. split_on c s = a # b # r"
proof (induction s)
  case Nil
  then show ?case by simp
next
  case (Cons x xs)
  show ?case
  proof (cases "x = c")
    case True
    obtain l ls where "split_on c xs = l # ls"
      using split_on_nonempty [of c xs] by (cases "split_on c xs") auto
    with True show ?thesis by simp
  next
    case False
    with Cons.prems have "c \<in> set xs" by simp
    then obtain a b r where "split_on c xs = a # b # r"
      using Cons.IH by blast
    with False show ?thesis by simp
  qed
qed

lemma dailyEntry_Inr:
  "\<exists>d. dailyEntry cal st w i = Inr d
       \<and> max_water_level d = toFixed_num 3 (window_max w)
       \<and> risk d = classifyRisk (window_max w) (threshold st) (risk_class st)"
proof -
  obtain wd md yr where c: "cal i = LocaleDate wd md yr"
    by (cases "cal i")
  have "CHR '','' \<in> set (getForecastDate cal i)"
    by (simp add: getForecastDate_def c)
  then obtain a b r where "split_on CHR '','' (getForecastDate cal i) = a # b # r"
    using split_on_two by blast
  then show ?thesis
    by (simp add: dailyEntry_def window_max_def Let_def)
qed

lemma day_window_enough:
  "4 * length (day_window raw i) < DATA_POINTS_PER_DAY \<longleftrightarrow> (length raw + 108) div 144 \<le> i"
  by (auto simp: day_window_def slice_def DATA_POINTS_PER_DAY_def DATA_POINTS_PER_HOUR_def
      TIME_INTERVAL_MINUTES_def min_def)

lemma dailyLoop_result:
  "dailyLoop cal st raw i acc =
     Inr (acc @ map (day_entry cal st raw) [i..<max i (day_count (length raw))])"
proof (induction cal st raw i acc rule: dailyLoop.induct)
  case (1 cal st raw i acc)
  show ?case
  proof (cases "i < NUM_DAYS \<and> \<not> 4 * length (day_window raw i) < DATA_POINTS_PER_DAY")
    case True
    obtain d where d: "dailyEntry cal st (day_window raw i) i = Inr d"
      using dailyEntry_Inr by blast
    have lt: "i < day_count (length raw)"
      using True by (simp add: day_window_enough day_count_def)
    have "dailyLoop cal st raw (Suc i) (acc @ [d]) =
        Inr ((acc @ [d]) @ map (day_entry cal st raw)
          [Suc i..<max (Suc i) (day_count (length raw))])"
      using True d by (intro "1.IH") (auto simp: day_window_def)
    moreover have "day_entry cal st raw i = d"
      by (simp add: day_entry_def d)
    moreover have "dailyLoop cal st raw i acc = dailyLoop cal st raw (Suc i) (acc @ [d])"
      using True d by (subst dailyLoop.simps) (simp add: Let_def day_window_def [symmetric])
    ultimately show ?thesis
      using lt by (simp add: max_def upt_conv_Cons)
  next
    case False
    then have "day_count (length raw) \<le> i"
      by (auto simp: day_window_enough day_count_def)
    moreover have "dailyLoop cal st raw i acc = Inr acc"
      using False by (subst dailyLoop.simps) (auto simp: Let_def day_window_def [symmetric])
    ultimately show ?thesis by (simp add: max_def)
  qed
qed

lemma filter_index_length:
  "length (filter_index (\<lambda>i. i mod 6 = 0) xs) = (length xs + 5) div 6"
proof (induction xs rule: rev_induct)
  case Nil
  then show ?case by (simp add: filter_index_def)
next
  case (snoc x xs)
  have "enumerate 0 (xs @ [x]) = enumerate 0 xs @ [(length xs, x)]"
    by (simp add: enumerate_append_eq)
  then have "length (filter_index (\<lambda>i. i mod 6 = 0) (xs @ [x])) =
      length (filter_index (\<lambda>i. i mod 6 = 0) xs) + (if length xs mod 6 = 0 then 1 else 0)"
    by (simp add: filter_index_def)
  also have "\<dots> = (length (xs @ [x]) + 5) div 6"
    using snoc.IH by (simp; presburger)
  finally show ?case .
qed

lemma fullHourlyData_length: "length (fullHourlyData raw) = (length raw + 5) div 6"
  by (simp add: fullHourlyData_def DATA_POINTS_PER_HOUR_def TIME_INTERVAL_MINUTES_def
      filter_index_length)

lemma parseForecastCSV_rows:
  "retainedRows csvText = Some raw \<Longrightarrow>
   parseForecastCSV cal csvText st =
     Inr \<lparr>daily = map (day_entry cal st raw) [0..<day_count (length raw)],
          hourly = fullHourlyData raw\<rparr>"
  by (auto simp: retainedRows_def parseForecastCSV_def Let_def dailyLoop_result
      split: if_splits option.splits)

lemma parseForecastCSV_no_rows:
  "retainedRows csvText = None \<Longrightarrow>
   parseForecastCSV cal csvText st = Inr \<lparr>daily = [], hourly = []\<rparr>"
  by (auto simp: retainedRows_def parseForecastCSV_def Let_def
      split: if_splits option.splits)

lemma split_on_no_sep: "c \<notin> set a \<Longrightarrow> split_on c a = [a]"
  by (induction a) auto

lemma split_on_append: "c \<notin> set a \<Longrightarrow> split_on c (a @ c # b) = a # split_on c b"
  by (induction a) (auto split: list.splits)

lemma split_on_replicate:
  "c \<notin> set h \<Longrightarrow> c \<notin> set l \<Longrightarrow>
   split_on c (h @ concat (replicate n (c # l))) = h # replicate n l"
proof (induction n arbitrary: h)
  case 0
  then show ?case by (simp add: split_on_no_sep)
next
  case (Suc n)
  have "split_on c (h @ concat (replicate (Suc n) (c # l))) =
      h # split_on c (l @ concat (replicate n (c # l)))"
    using Suc.prems by (simp add: split_on_append)
  with Suc show ?case by simp
qed

lemma trim_id: "s \<noteq> [] \<Longrightarrow> \<not> is_ws (hd s) \<Longrightarrow> \<not> is_ws (last s) \<Longrightarrow> trim s = s"
proof -
  assume a: "s \<noteq> []" "\<not> is_ws (hd s)" "\<not> is_ws (last s)"
  then have "dropWhile is_ws s = s" by (cases s) auto
  moreover have "dropWhile is_ws (rev s) = rev s"
    using a by (cases "rev s") (auto simp: hd_rev [symmetric] simp del: hd_rev)
  ultimately show ?thesis by (simp add: trim_def)
qed

lemma last_concat_replicate:
  "line \<noteq> [] \<Longrightarrow> last (concat (replicate (Suc m) (c # line))) = last line"
  by (induction m) simp_all

lemma header_index: "twlColumnIndex [''time'', ''total_water_level''] = Some 1"
  by (simp add: twlColumnIndex_def trim_def is_ws_def toLowerCase_def lower_char_def)

lemma retainedRows_sample:
  assumes "0 < n" and "line \<noteq> []" and "\<not> is_ws (last line)" and "CHR 0x0A \<notin> set line"
  shows "retainedRows (sample_csv n line) = Some (rawTWLData (Suc 0) (replicate n line))"
proof -
  obtain m where n: "n = Suc m" using assms(1) by (cases n) auto
  have "last (sample_csv n line) = last line"
    unfolding sample_csv_def n using last_concat_replicate [OF assms(2), of m "CHR 0x0A"]
    by (simp del: replicate.simps concat.simps)
  then have "trim (sample_csv n line) = sample_csv n line"
    using assms(3) by (intro trim_id) (simp_all add: sample_csv_def is_ws_def)
  moreover have "split_on CHR 0x0A (sample_csv n line) = ''time,total_water_level'' # replicate n line"
    unfolding sample_csv_def using assms(4) by (intro split_on_replicate) simp_all
  ultimately show ?thesis
    using assms(1) by (simp add: retainedRows_def header_index)
qed

lemma parseFloat_1_5: "parseFloat ''1.5'' = Fin (3 / 2)"
  by (simp add: parseFloat_def is_ws_def is_digit_def digits_val_def exponent_part_def)

lemma parseFloat_neg: "parseFloat ''-1.5'' = Fin (- (3 / 2))"
  by (simp add: parseFloat_def is_ws_def is_digit_def digits_val_def exponent_part_def)

lemma rawTWLData_sample_pos:
  "rawTWLData (Suc 0) (replicate n ''t,1.5'') = replicate n \<lparr>timestamp = ''t'', twl = Fin (3 / 2)\<rparr>"
  by (induction n) (simp_all add: parseFloat_1_5 Let_def)

lemma rawTWLData_sample_neg:
  "rawTWLData (Suc 0) (replicate n ''t,-1.5'') = replicate n \<lparr>timestamp = ''t'', twl = Fin (- (3 / 2))\<rparr>"
  by (induction n) (simp_all add: parseFloat_neg Let_def)

lemma rawTWLData_not_NaN: "r \<in> set (rawTWLData k ls) \<Longrightarrow> \<not> isNaN (twl r)"
  by (induction ls) (auto simp: Let_def split: if_splits)

lemma Math_max_nonneg:
  "js_le (Fin 0) m \<Longrightarrow> \<not> isNaN b \<Longrightarrow> js_le (Fin 0) (Math_max m b)"
  by (cases m; cases b) auto

lemma foldl_max_nonneg:
  "js_le (Fin 0) m \<Longrightarrow> \<forall>r \<in> set w. \<not> isNaN (twl r) \<Longrightarrow>
   js_le (Fin 0) (foldl (\<lambda>mx item. Math_max mx (twl item)) m w)"
  by (induction w arbitrary: m) (simp_all add: Math_max_nonneg)

lemma window_max_nonneg:
  "\<forall>r \<in> set w. \<not> isNaN (twl r) \<Longrightarrow> js_le (Fin 0) (window_max w)"
  unfolding window_max_def by (rule foldl_max_nonneg) simp_all

lemma round_nonneg: "0 \<le> (x::real) \<Longrightarrow> 0 \<le> real_of_int \<lfloor>x * 10 ^ d + 1 / 2\<rfloor> / 10 ^ d"
proof -
  assume "0 \<le> x"
  then have "0 \<le> x * 10 ^ d + 1 / 2" by simp
  then have "0 \<le> \<lfloor>x * 10 ^ d + 1 / 2\<rfloor>" by (simp only: zero_le_floor)
  then show ?thesis by simp
qed

lemma toFixed_num_nonneg: "js_le (Fin 0) x \<Longrightarrow> js_le (Fin 0) (toFixed_num d x)"
  using round_nonneg by (cases x) (auto simp: not_less)

lemma Math_max_zero_neg: "js_lt b (Fin 0) \<Longrightarrow> Math_max (Fin 0) b = Fin 0"
  by (cases b) auto

lemma window_max_neg: "\<forall>r \<in> set w. js_lt (twl r) (Fin 0) \<Longrightarrow> window_max w = Fin 0"
  unfolding window_max_def by (induction w) (simp_all add: Math_max_zero_neg)

lemma day_window_subset: "set (day_window raw i) \<subseteq> set raw"
  unfolding day_window_def slice_def
  by (meson set_take_subset set_drop_subset subset_trans)

lemma day_entry_fields:
  "max_water_level (day_entry cal st raw i) = toFixed_num 3 (window_max (day_window raw i))"
  "risk (day_entry cal st raw i) =
     classifyRisk (window_max (day_window raw i)) (threshold st) (risk_class st)"
  using dailyEntry_Inr [of cal st "day_window raw i" i] by (auto simp: day_entry_def)

lemma parseForecastCSV_total:
  "\<exists>fs. parseForecastCSV cal csvText st = Inr fs"
  by (cases "retainedRows csvText") (simp_all add: parseForecastCSV_rows parseForecastCSV_no_rows)

lemma day_count_1008: "day_count 1008 = 7" and day_count_452: "day_count 452 = 3"
  and day_count_36: "day_count 36 = 1"
  by (simp_all add: day_count_def NUM_DAYS_def)

section \<open>Lemmas on the event parser, the sort and the cache\<close>





lemma getReleaseInfo_state:
  assumes "getReleaseInfo net st = (info, st1)"
  shows "EVENT_DATA_CACHE st1 = EVENT_DATA_CACHE st \<and> heap st1 = heap st
       \<and> requests st1 = requests st @ (if RELEASE_INFO st = None then [release_url] else [])"
proof (cases "RELEASE_INFO st")
  case None
  then show ?thesis
    using assms
    by (auto simp: getReleaseInfo_def fetch_def split: option.splits fetched.splits if_splits)
next
  case (Some a)
  then have "getReleaseInfo net st = (Some a, st)"
    by (simp add: getReleaseInfo_def)
  with assms have "st1 = st" by simp
  then show ?thesis
    using Some by simp
qed

lemma getAssetDownloadUrl_state:
  assumes "getAssetDownloadUrl net st filename = (u, st1)"
  shows "EVENT_DATA_CACHE st1 = EVENT_DATA_CACHE st \<and> heap st1 = heap st
       \<and> requests st1 = requests st @ (if RELEASE_INFO st = None then [release_url] else [])"
proof -
  obtain info sta where g: "getReleaseInfo net st = (info, sta)"
    by (cases "getReleaseInfo net st")
  then have "st1 = sta"
    using assms by (auto simp: getAssetDownloadUrl_def split: option.splits)
  then show ?thesis
    using getReleaseInfo_state [OF g] by simp
qed

lemma fetchAndParseXtremEvents_miss:
  assumes "EVENT_DATA_CACHE st siteId = None"
    and "getAssetDownloadUrl net st (''Xtrem_all_var_'' @ siteId @ ''.csv'') = (u, st1)"
  shows "fetchAndParseXtremEvents dateParse net st siteId =
     (Inr (length (heap st)),
      st1\<lparr>EVENT_DATA_CACHE := (EVENT_DATA_CACHE st)(siteId \<mapsto> length (heap st)),
          heap := heap st @ [first_catalog dateParse net st1 u],
          requests := requests st1 @ (if falsy_url u then [] else [the u])\<rparr>)"
proof -
  have s: "EVENT_DATA_CACHE st1 = EVENT_DATA_CACHE st" "heap st1 = heap st"
    using getAssetDownloadUrl_state [OF assms(2)] by simp_all
  show ?thesis
    using assms s
    by (auto simp: fetchAndParseXtremEvents_def xtremTry_def cache_and_return_def new_catalog_def
        fetch_def first_catalog_def fetched_catalog_def sortedEvents_def Let_def
        split: fetched.splits option.splits)
qed

lemma fetchAndParseXtremEvents_hit:
  "EVENT_DATA_CACHE st siteId = Some ref \<Longrightarrow>
   fetchAndParseXtremEvents dateParse net st siteId = (Inr ref, st)"
  by (simp add: fetchAndParseXtremEvents_def)









lemma length_sort_insert: "length (sort_insert cmp x ys) = Suc (length ys)"
  by (induction ys) auto

lemma length_Array_sort: "length (Array_sort cmp xs) = length xs"
  unfolding Array_sort_def by (induction xs) (simp_all add: length_sort_insert)


lemma getSiteEvents_keeps:
  assumes "EVENT_DATA_CACHE st s = Some ref" and "ref < length (heap st)"
  shows "EVENT_DATA_CACHE (snd (getSiteEvents dateParse net st s')) s = Some ref
       \<and> ref < length (heap (snd (getSiteEvents dateParse net st s')))
       \<and> heap (snd (getSiteEvents dateParse net st s')) ! ref = heap st ! ref"
proof (cases "EVENT_DATA_CACHE st s'")
  case None
  obtain u st1 where g: "getAssetDownloadUrl net st (''Xtrem_all_var_'' @ s' @ ''.csv'') = (u, st1)"
    by (cases "getAssetDownloadUrl net st (''Xtrem_all_var_'' @ s' @ ''.csv'')")
  have "s' \<noteq> s" using None assms(1) by auto
  then show ?thesis
    using assms by (simp add: getSiteEvents_def fetchAndParseXtremEvents_miss [OF None g] nth_append)
next
  case (Some r)
  then show ?thesis
    using assms by (simp add: getSiteEvents_def fetchAndParseXtremEvents_hit)
qed

lemma getSiteEvents_each_keeps:
  "EVENT_DATA_CACHE st s = Some ref \<Longrightarrow> ref < length (heap st) \<Longrightarrow>
   EVENT_DATA_CACHE (getSiteEvents_each dateParse net st ids) s = Some ref
   \<and> ref < length (heap (getSiteEvents_each dateParse net st ids))
   \<and> heap (getSiteEvents_each dateParse net st ids) ! ref = heap st ! ref"
proof (induction ids arbitrary: st)
  case Nil
  then show ?case by simp
next
  case (Cons a ids)
  from getSiteEvents_keeps [OF Cons.prems, of dateParse net a]
  show ?case using Cons.IH [of "snd (getSiteEvents dateParse net st a)"] by simp
qed

lemma first_catalog_failure:
  "falsy_url u \<or> net (length (requests st1)) (the u) = NetworkFault
   \<or> (\<exists>resp. net (length (requests st1)) (the u) = Response resp
         \<and> (\<not> ok resp \<or> text_body resp = None)) \<Longrightarrow>
   first_catalog dateParse net st1 u = \<lparr>count = 0, events = []\<rparr>"
  by (auto simp: first_catalog_def fetched_catalog_def empty_catalog_def)







lemma two_events_sorted:
  "sortedEvents sample_dateParse two_events_csv =
     [\<lparr>event_id = ''2020-01-01'', twl_components = [Fin 0, Fin (3 / 2), Fin 0],
       twl_peak = Fin (3 / 2), Hs = Fin 0, dur_h = Fin 0\<rparr>,
      \<lparr>event_id = ''2019-03-01'', twl_components = [Fin 0, Fin (9 / 5), Fin 0],
       twl_peak = Fin (9 / 5), Hs = Fin 0, dur_h = Fin 0\<rparr>]"
  by code_simp


section \<open>The sample network, evaluated\<close>

lemma urls_distinct: "sample_asset_url \<noteq> release_url" "registry_url \<noteq> release_url"
  "registry_url \<noteq> ''./sites_file.json''" "''./sites_file.json'' \<noteq> release_url"
  by (simp_all add: sample_asset_url_def registry_url_def release_url_def GITHUB_API_BASE_def)

lemma asset_url_nonempty: "sample_asset_url \<noteq> []" "registry_url \<noteq> []"
  by (simp_all add: sample_asset_url_def registry_url_def)

lemma sample_find:
  "find (\<lambda>a. asset_name a = ''Xtrem_all_var_TOGO.csv'') (the (assets sample_release))
     = Some \<lparr>asset_name = ''Xtrem_all_var_TOGO.csv'', browser_download_url = sample_asset_url\<rparr>"
  by (simp add: sample_release_def)

lemma resolve_TOGO:
  "getAssetDownloadUrl sample_net initial_state ''Xtrem_all_var_TOGO.csv'' =
     (Some sample_asset_url,
      \<lparr>RELEASE_INFO = Some sample_release, EVENT_DATA_CACHE = Map.empty, heap = [],
       requests = [release_url]\<rparr>)"
proof -
  have "getReleaseInfo sample_net initial_state =
     (Some sample_release,
      \<lparr>RELEASE_INFO = Some sample_release, EVENT_DATA_CACHE = Map.empty, heap = [],
       requests = [release_url]\<rparr>)"
    by (simp add: getReleaseInfo_def fetch_def initial_state_def sample_net_def)
  then show ?thesis
    by (simp add: getAssetDownloadUrl_def sample_release_def)
qed

lemma first_catalog_TOGO:
  "first_catalog sample_dateParse sample_net
      \<lparr>RELEASE_INFO = Some sample_release, EVENT_DATA_CACHE = Map.empty, heap = [],
       requests = [release_url]\<rparr> (Some sample_asset_url)
     = \<lparr>count = 2, events = sortedEvents sample_dateParse two_events_csv\<rparr>"
proof -
  have "sample_net (Suc 0) sample_asset_url =
      Response \<lparr>ok = True, status = 200, statusText = ''OK'', text_body = Some two_events_csv,
                  json_release = None, json_sites = None\<rparr>"
    by (simp add: sample_net_def urls_distinct)
  moreover have "length (sortedEvents sample_dateParse two_events_csv) = 2"
    by (simp add: two_events_sorted)
  ultimately show ?thesis
    by (simp add: first_catalog_def fetched_catalog_def falsy_url_def asset_url_nonempty)
qed

lemma first_call_TOGO:
  "getSiteEvents sample_dateParse sample_net initial_state ''TOGO'' =
     (Inr 0,
      \<lparr>RELEASE_INFO = Some sample_release, EVENT_DATA_CACHE = [''TOGO'' \<mapsto> 0],
       heap = [\<lparr>count = 2, events = sortedEvents sample_dateParse two_events_csv\<rparr>],
       requests = [release_url, sample_asset_url]\<rparr>)"
proof -
  have miss: "EVENT_DATA_CACHE initial_state ''TOGO'' = None"
    by (simp add: initial_state_def)
  have g: "getAssetDownloadUrl sample_net initial_state (''Xtrem_all_var_'' @ ''TOGO'' @ ''.csv'') =
     (Some sample_asset_url,
      \<lparr>RELEASE_INFO = Some sample_release, EVENT_DATA_CACHE = Map.empty, heap = [],
       requests = [release_url]\<rparr>)"
    using resolve_TOGO by simp
  have h: "heap initial_state = []" "EVENT_DATA_CACHE initial_state = Map.empty"
    by (simp_all add: initial_state_def)
  show ?thesis
    unfolding getSiteEvents_def fetchAndParseXtremEvents_miss [OF miss g] first_catalog_TOGO h
    by (simp add: falsy_url_def asset_url_nonempty)
qed





section \<open>Properties of the risk classifier\<close>

text \<open>
  Claim C2. For water levels \<open>v\<close>, a threshold \<open>t\<close> and class bounds \<open>[h, s]\<close> with
  \<open>t < h < s\<close>, \<open>classifyRisk\<close> is a step function: No Flood exactly below \<open>t\<close>, Warning
  exactly on \<open>[t, h)\<close>, High Risk exactly on \<open>[h, s)\<close>, Severe Flood exactly from \<open>s\<close> on.
  It is monotone in \<open>v\<close>, and each bound belongs to the higher band.
\<close>

theorem classifyRisk_step_function:
  fixes v t h s :: real
  assumes "t < h" and "h < s"
  shows "(classifyRisk (Fin v) (Fin t) [Fin h, Fin s] = NoFlood \<longleftrightarrow> v < t)
       \<and> (classifyRisk (Fin v) (Fin t) [Fin h, Fin s] = Warning \<longleftrightarrow> t \<le> v \<and> v < h)
       \<and> (classifyRisk (Fin v) (Fin t) [Fin h, Fin s] = HighRisk \<longleftrightarrow> h \<le> v \<and> v < s)
       \<and> (classifyRisk (Fin v) (Fin t) [Fin h, Fin s] = SevereFlood \<longleftrightarrow> s \<le> v)
       \<and> (\<forall>w. v \<le> w \<longrightarrow>
             risk_rank (classifyRisk (Fin v) (Fin t) [Fin h, Fin s])
               \<le> risk_rank (classifyRisk (Fin w) (Fin t) [Fin h, Fin s]))
       \<and> classifyRisk (Fin t) (Fin t) [Fin h, Fin s] = Warning
       \<and> classifyRisk (Fin h) (Fin t) [Fin h, Fin s] = HighRisk
       \<and> classifyRisk (Fin s) (Fin t) [Fin h, Fin s] = SevereFlood"
  using assms by (auto simp: classifyRisk_def at_num_def)

theorem classifyRisk_step_function_witness:
  "(1::real) < 2 \<and> (2::real) < 3
   \<and> classifyRisk (Fin 1) (Fin 1) [Fin 2, Fin 3] = Warning
   \<and> classifyRisk (Fin 2) (Fin 1) [Fin 2, Fin 3] = HighRisk
   \<and> classifyRisk (Fin 3) (Fin 1) [Fin 2, Fin 3] = SevereFlood
   \<and> (classifyRisk (Fin (1/2)) (Fin 1) [Fin 2, Fin 3] = NoFlood \<longleftrightarrow> (1/2::real) < 1)"
  using classifyRisk_step_function [of 1 2 3 "1/2"] by simp

section \<open>Properties of the forecast parser\<close>

text \<open>
  Claim C1. For every site, a CSV whose header has the \<^verbatim>\<open>total_water_level\<close> column and
  whose body yields exactly 144 * 7 = 1008 valid rows gives 7 daily entries and 168 hourly
  values. With exactly 144 * 3 + 20 = 452 valid rows the fourth window holds 20 rows, fewer
  than 36, and the result has exactly 3 daily entries: the short day and every later day
  are dropped.
\<close>

theorem parseForecastCSV_day_counts:
  assumes "retainedRows csvText = Some raw"
  shows "(length raw = 144 * 7 \<longrightarrow>
            (\<exists>fs. parseForecastCSV cal csvText st = Inr fs
                \<and> length (daily fs) = 7 \<and> length (hourly fs) = 168))
       \<and> (length raw = 144 * 3 + 20 \<longrightarrow>
            (\<exists>fs. parseForecastCSV cal csvText st = Inr fs
                \<and> length (slice raw (3 * 144) (3 * 144 + 144)) = 20
                \<and> length (daily fs) = 3))"
  using assms
  by (simp add: parseForecastCSV_rows fullHourlyData_length day_count_def NUM_DAYS_def slice_def)

theorem parseForecastCSV_day_counts_witness:
  "length (daily (projr (parseForecastCSV sample_calendar (sample_csv 1008 ''t,1.5'') sample_site))) = 7
   \<and> length (hourly (projr (parseForecastCSV sample_calendar (sample_csv 1008 ''t,1.5'') sample_site))) = 168
   \<and> length (daily (projr (parseForecastCSV sample_calendar (sample_csv 452 ''t,1.5'') sample_site))) = 3"
proof -
  have a: "retainedRows (sample_csv 1008 ''t,1.5'')
      = Some (replicate 1008 \<lparr>timestamp = ''t'', twl = Fin (3 / 2)\<rparr>)"
    by (simp add: retainedRows_sample rawTWLData_sample_pos is_ws_def)
  have b: "retainedRows (sample_csv 452 ''t,1.5'')
      = Some (replicate 452 \<lparr>timestamp = ''t'', twl = Fin (3 / 2)\<rparr>)"
    by (simp add: retainedRows_sample rawTWLData_sample_pos is_ws_def)
  show ?thesis
    using parseForecastCSV_day_counts [OF a, of sample_calendar sample_site]
      parseForecastCSV_day_counts [OF b, of sample_calendar sample_site]
    by auto
qed

text \<open>
  Claim C3 says that \<^verbatim>\<open>hourly.length == 24 * daily.length\<close> for every forecast CSV, also
  when the rows are short. With 452 valid rows the parser returns 3 daily entries and 76
  hourly values: the hourly series is taken from all retained rows and is not cut where the
  daily loop stops.
\<close>

theorem hourly_not_24_daily_counterexample:
  "length (daily (projr (parseForecastCSV sample_calendar (sample_csv 452 ''t,1.5'') sample_site))) = 3
   \<and> length (hourly (projr (parseForecastCSV sample_calendar (sample_csv 452 ''t,1.5'') sample_site))) = 76
   \<and> length (hourly (projr (parseForecastCSV sample_calendar (sample_csv 452 ''t,1.5'') sample_site)))
       \<noteq> 24 * length (daily (projr (parseForecastCSV sample_calendar (sample_csv 452 ''t,1.5'') sample_site)))"
proof -
  have b: "retainedRows (sample_csv 452 ''t,1.5'')
      = Some (replicate 452 \<lparr>timestamp = ''t'', twl = Fin (3 / 2)\<rparr>)"
    by (simp add: retainedRows_sample rawTWLData_sample_pos is_ws_def)
  show ?thesis
    by (simp add: parseForecastCSV_rows [OF b] fullHourlyData_length day_count_452)
qed

text \<open>
  Claim C3, amended. For \<open>n\<close> retained rows the hourly series has \<open>\<lceil>n / 6\<rceil>\<close> values and the
  daily series has \<open>min 7 \<lfloor>(n + 108) / 144\<rfloor>\<close> entries. When the rows make up \<open>k \<le> 7\<close> whole
  days (\<open>n = 144 * k\<close>), there are \<open>k\<close> daily entries and
  \<^verbatim>\<open>hourly.length == 24 * daily.length\<close>.
\<close>

theorem hourly_daily_lengths:
  assumes "retainedRows csvText = Some raw"
  shows "\<exists>fs. parseForecastCSV cal csvText st = Inr fs
           \<and> length (hourly fs) = (length raw + 5) div 6
           \<and> length (daily fs) = min NUM_DAYS ((length raw + 108) div 144)
           \<and> (\<forall>k \<le> NUM_DAYS. length raw = DATA_POINTS_PER_DAY * k \<longrightarrow>
                 length (daily fs) = k \<and> length (hourly fs) = 24 * length (daily fs))"
  using assms
  by (auto simp: parseForecastCSV_rows fullHourlyData_length day_count_def NUM_DAYS_def
      DATA_POINTS_PER_DAY_def DATA_POINTS_PER_HOUR_def TIME_INTERVAL_MINUTES_def)

theorem hourly_daily_lengths_witness:
  "length (hourly (projr (parseForecastCSV sample_calendar (sample_csv 1008 ''t,1.5'') sample_site)))
     = 24 * length (daily (projr (parseForecastCSV sample_calendar (sample_csv 1008 ''t,1.5'') sample_site)))
   \<and> length (daily (projr (parseForecastCSV sample_calendar (sample_csv 1008 ''t,1.5'') sample_site))) = 7"
proof -
  have a: "retainedRows (sample_csv 1008 ''t,1.5'')
      = Some (replicate 1008 \<lparr>timestamp = ''t'', twl = Fin (3 / 2)\<rparr>)"
    by (simp add: retainedRows_sample rawTWLData_sample_pos is_ws_def)
  have "(7::nat) \<le> NUM_DAYS" by (simp add: NUM_DAYS_def)
  moreover have "length (replicate 1008 \<lparr>timestamp = ''t'', twl = Fin (3 / 2)\<rparr>) = DATA_POINTS_PER_DAY * 7"
    by (simp add: DATA_POINTS_PER_DAY_def DATA_POINTS_PER_HOUR_def TIME_INTERVAL_MINUTES_def)
  ultimately show ?thesis
    using hourly_daily_lengths [OF a, of sample_calendar sample_site] by auto
qed

text \<open>
  Claim C9. For every CSV text and site the parser returns, and every daily entry has
  \<^verbatim>\<open>max_water_level >= 0\<close>: the maximum of a window is folded from 0. An emitted day
  whose samples are all negative reports \<^verbatim>\<open>max_water_level\<close> 0, and its risk is the class
  of 0.
\<close>

theorem max_water_level_nonneg:
  "\<exists>fs. parseForecastCSV cal csvText st = Inr fs
     \<and> (\<forall>d \<in> set (daily fs). js_ge (max_water_level d) (Fin 0))
     \<and> (\<forall>raw i. retainedRows csvText = Some raw \<longrightarrow> i < length (daily fs) \<longrightarrow>
           (\<forall>r \<in> set (slice raw (i * DATA_POINTS_PER_DAY) (i * DATA_POINTS_PER_DAY + DATA_POINTS_PER_DAY)).
               js_lt (twl r) (Fin 0)) \<longrightarrow>
           max_water_level (daily fs ! i) = Fin 0
           \<and> risk (daily fs ! i) = classifyRisk (Fin 0) (threshold st) (risk_class st))"
proof (cases "retainedRows csvText")
  case None
  then show ?thesis by (simp add: parseForecastCSV_no_rows)
next
  case (Some raw)
  have nn: "\<forall>r \<in> set raw. \<not> isNaN (twl r)"
    using Some by (auto simp: retainedRows_def Let_def rawTWLData_not_NaN split: if_splits)
  have ge: "js_ge (max_water_level (day_entry cal st raw i)) (Fin 0)" for i
  proof -
    have "\<forall>r \<in> set (day_window raw i). \<not> isNaN (twl r)"
      using nn day_window_subset by blast
    then show ?thesis
      by (simp add: js_ge_def day_entry_fields toFixed_num_nonneg window_max_nonneg)
  qed
  have neg: "max_water_level (day_entry cal st raw i) = Fin 0
      \<and> risk (day_entry cal st raw i) = classifyRisk (Fin 0) (threshold st) (risk_class st)"
    if "\<forall>r \<in> set (day_window raw i). js_lt (twl r) (Fin 0)" for i
    using that by (simp add: day_entry_fields window_max_neg)
  show ?thesis
    using ge neg by (auto simp: Some parseForecastCSV_rows day_window_def)
qed

theorem max_water_level_nonneg_witness:
  "length (daily (projr (parseForecastCSV sample_calendar (sample_csv 36 ''t,-1.5'') sample_site))) = 1
   \<and> max_water_level (daily (projr (parseForecastCSV sample_calendar (sample_csv 36 ''t,-1.5'') sample_site)) ! 0) = Fin 0
   \<and> risk (daily (projr (parseForecastCSV sample_calendar (sample_csv 36 ''t,-1.5'') sample_site)) ! 0) = NoFlood"
proof -
  have a: "retainedRows (sample_csv 36 ''t,-1.5'')
      = Some (replicate 36 \<lparr>timestamp = ''t'', twl = Fin (- (3 / 2))\<rparr>)"
    by (simp add: retainedRows_sample rawTWLData_sample_neg is_ws_def)
  have len: "length (daily (projr (parseForecastCSV sample_calendar (sample_csv 36 ''t,-1.5'') sample_site))) = 1"
    by (simp add: parseForecastCSV_rows [OF a] day_count_36)
  have "\<forall>r \<in> set (slice (replicate 36 \<lparr>timestamp = ''t'', twl = Fin (- (3 / 2))\<rparr>)
        (0 * DATA_POINTS_PER_DAY) (0 * DATA_POINTS_PER_DAY + DATA_POINTS_PER_DAY)).
      js_lt (twl r) (Fin 0)"
    by (auto simp: slice_def dest: in_set_takeD)
  moreover have "classifyRisk (Fin 0) (threshold sample_site) (risk_class sample_site) = NoFlood"
    by (simp add: classifyRisk_def sample_site_def)
  ultimately show ?thesis
    using max_water_level_nonneg [of sample_calendar "sample_csv 36 ''t,-1.5''" sample_site] a len
    by auto
qed

section \<open>Properties of the event parser\<close>






section \<open>Properties of the event catalog cache\<close>



text \<open>
  Claim C7 says that two calls of \<^verbatim>\<open>getSiteEvents("TOGO")\<close> in sequence issue exactly one
  fetch. When the release metadata is memoized and lists no catalog for the site, the
  first call caches the empty catalog without any fetch and the second call returns the
  same object: the list of requests is the same after the two calls as before them.
\<close>

theorem exactly_one_fetch_counterexample:
  "getSiteEvents sample_dateParse sample_net no_assets_state ''TOGO'' =
     (Inr 0, no_assets_state\<lparr>EVENT_DATA_CACHE := [''TOGO'' \<mapsto> 0],
                             heap := [\<lparr>count = 0, events = []\<rparr>]\<rparr>)
   \<and> getSiteEvents sample_dateParse sample_net
        (no_assets_state\<lparr>EVENT_DATA_CACHE := [''TOGO'' \<mapsto> 0],
                         heap := [\<lparr>count = 0, events = []\<rparr>]\<rparr>) ''TOGO'' =
     (Inr 0, no_assets_state\<lparr>EVENT_DATA_CACHE := [''TOGO'' \<mapsto> 0],
                             heap := [\<lparr>count = 0, events = []\<rparr>]\<rparr>)
   \<and> requests (no_assets_state\<lparr>EVENT_DATA_CACHE := [''TOGO'' \<mapsto> 0],
                                heap := [\<lparr>count = 0, events = []\<rparr>]\<rparr>)
       = requests no_assets_state"
proof -
  have miss: "EVENT_DATA_CACHE no_assets_state ''TOGO'' = None"
    by (simp add: no_assets_state_def)
  have g: "getAssetDownloadUrl sample_net no_assets_state (''Xtrem_all_var_'' @ ''TOGO'' @ ''.csv'')
      = (None, no_assets_state)"
    by (simp add: getAssetDownloadUrl_def getReleaseInfo_def no_assets_state_def)
  have a: "getSiteEvents sample_dateParse sample_net no_assets_state ''TOGO'' =
     (Inr 0, no_assets_state\<lparr>EVENT_DATA_CACHE := [''TOGO'' \<mapsto> 0],
                             heap := [\<lparr>count = 0, events = []\<rparr>]\<rparr>)"
    unfolding getSiteEvents_def fetchAndParseXtremEvents_miss [OF miss g]
    by (simp add: first_catalog_def falsy_url_def empty_catalog_def no_assets_state_def)
  have b: "getSiteEvents sample_dateParse sample_net
        (no_assets_state\<lparr>EVENT_DATA_CACHE := [''TOGO'' \<mapsto> 0],
                         heap := [\<lparr>count = 0, events = []\<rparr>]\<rparr>) ''TOGO'' =
     (Inr 0, no_assets_state\<lparr>EVENT_DATA_CACHE := [''TOGO'' \<mapsto> 0],
                             heap := [\<lparr>count = 0, events = []\<rparr>]\<rparr>)"
    by (simp add: getSiteEvents_def fetchAndParseXtremEvents_def)
  show ?thesis using a b by simp
qed

text \<open>
  Claim C7, amended. \<^verbatim>\<open>getSiteEvents\<close> is memoized per site id. A first call for a site id
  resolves the asset and returns a catalog without throwing; it caches the catalog, which
  is \<^verbatim>\<open>{count: 0, events: []}\<close> when the asset is not found, the fetch faults, the status
  is not a success or the body cannot be read. Beyond the request of the resolver for the
  release metadata, the call fetches the asset once when it resolved and not at all
  otherwise. After it, and after any further calls of \<^verbatim>\<open>getSiteEvents\<close>, a call for the same
  site id returns the same object and leaves the state, hence the list of requests,
  unchanged.
\<close>

theorem getSiteEvents_memoized:
  assumes "EVENT_DATA_CACHE st siteId = None"
    and "getAssetDownloadUrl net st (''Xtrem_all_var_'' @ siteId @ ''.csv'') = (u, st1)"
    and "getSiteEvents dateParse net st siteId = (r, st2)"
  shows "\<exists>ref. r = Inr ref
      \<and> EVENT_DATA_CACHE st2 siteId = Some ref \<and> ref < length (heap st2)
      \<and> (falsy_url u \<or> net (length (requests st1)) (the u) = NetworkFault
           \<or> (\<exists>resp. net (length (requests st1)) (the u) = Response resp
                 \<and> (\<not> ok resp \<or> text_body resp = None))
         \<longrightarrow> heap st2 ! ref = \<lparr>count = 0, events = []\<rparr>)
      \<and> requests st1 = requests st @ (if RELEASE_INFO st = None then [release_url] else [])
      \<and> requests st2 = requests st1 @ (if falsy_url u then [] else [the u])
      \<and> (\<forall>ids net'.
            getSiteEvents dateParse net' (getSiteEvents_each dateParse net' st2 ids) siteId
              = (Inr ref, getSiteEvents_each dateParse net' st2 ids)
            \<and> heap (getSiteEvents_each dateParse net' st2 ids) ! ref = heap st2 ! ref)"
proof -
  let ?ref = "length (heap st)"
  have s: "heap st1 = heap st"
    and rq: "requests st1 = requests st @ (if RELEASE_INFO st = None then [release_url] else [])"
    using getAssetDownloadUrl_state [OF assms(2)] by simp_all
  have res: "r = Inr ?ref"
    and st2: "st2 = st1\<lparr>EVENT_DATA_CACHE := (EVENT_DATA_CACHE st)(siteId \<mapsto> ?ref),
          heap := heap st @ [first_catalog dateParse net st1 u],
          requests := requests st1 @ (if falsy_url u then [] else [the u])\<rparr>"
    using assms(3) by (simp_all add: getSiteEvents_def fetchAndParseXtremEvents_miss [OF assms(1,2)])
  have c: "EVENT_DATA_CACHE st2 siteId = Some ?ref" and h: "?ref < length (heap st2)"
    and o: "heap st2 ! ?ref = first_catalog dateParse net st1 u"
    and q: "requests st2 = requests st1 @ (if falsy_url u then [] else [the u])"
    by (simp_all add: st2)
  have later: "getSiteEvents dateParse net' (getSiteEvents_each dateParse net' st2 ids) siteId
              = (Inr ?ref, getSiteEvents_each dateParse net' st2 ids)
            \<and> heap (getSiteEvents_each dateParse net' st2 ids) ! ?ref = heap st2 ! ?ref" for ids net'
    using getSiteEvents_each_keeps [OF c h, of dateParse net' ids]
    by (simp add: getSiteEvents_def fetchAndParseXtremEvents_hit)
  show ?thesis
    using res c h o q rq later first_catalog_failure [of u net st1 dateParse] by auto
qed

theorem getSiteEvents_memoized_witness:
  "fst (getSiteEvents sample_dateParse sample_net initial_state ''TOGO'') = Inr 0
   \<and> requests (snd (getSiteEvents sample_dateParse sample_net initial_state ''TOGO''))
       = [release_url, sample_asset_url]
   \<and> getSiteEvents sample_dateParse down_net
        (snd (getSiteEvents sample_dateParse sample_net initial_state ''TOGO'')) ''TOGO''
       = (Inr 0, snd (getSiteEvents sample_dateParse sample_net initial_state ''TOGO''))"
proof -
  define st2 where "st2 = snd (getSiteEvents sample_dateParse sample_net initial_state ''TOGO'')"
  have run: "getSiteEvents sample_dateParse sample_net initial_state ''TOGO'' = (Inr 0, st2)"
    by (simp add: st2_def first_call_TOGO)
  have miss: "EVENT_DATA_CACHE initial_state ''TOGO'' = None"
    by (simp add: initial_state_def)
  have g: "getAssetDownloadUrl sample_net initial_state (''Xtrem_all_var_'' @ ''TOGO'' @ ''.csv'') =
     (Some sample_asset_url,
      \<lparr>RELEASE_INFO = Some sample_release, EVENT_DATA_CACHE = Map.empty, heap = [],
       requests = [release_url]\<rparr>)"
    using resolve_TOGO by simp
  from getSiteEvents_memoized [OF miss g run]
  obtain ref where r: "(Inr 0 :: js_error + nat) = Inr ref"
    and q: "requests st2 = requests \<lparr>RELEASE_INFO = Some sample_release,
        EVENT_DATA_CACHE = Map.empty, heap = [], requests = [release_url]\<rparr>
        @ (if falsy_url (Some sample_asset_url) then [] else [the (Some sample_asset_url)])"
    and again: "\<forall>ids net'.
        getSiteEvents sample_dateParse net' (getSiteEvents_each sample_dateParse net' st2 ids) ''TOGO''
          = (Inr ref, getSiteEvents_each sample_dateParse net' st2 ids)
        \<and> heap (getSiteEvents_each sample_dateParse net' st2 ids) ! ref = heap st2 ! ref"
    by blast
  have ref: "ref = 0" using r by simp
  have "getSiteEvents sample_dateParse down_net st2 ''TOGO'' = (Inr 0, st2)"
    using again [THEN spec, of "[]", THEN spec, of down_net] ref by simp
  moreover have "requests st2 = [release_url, sample_asset_url]"
    using q by (simp add: falsy_url_def asset_url_nonempty)
  ultimately show ?thesis
    using run by (simp add: st2_def [symmetric])
qed

text \<open>
  Claim C10. Every catalog in \<^verbatim>\<open>EVENT_DATA_CACHE\<close> satisfies \<^verbatim>\<open>count == events.length\<close>: this
  holds of the empty cache, every call of \<^verbatim>\<open>getSiteEvents\<close> keeps it, and the catalog that
  the call returns satisfies it, on the success path as on every failure path.
\<close>

theorem cached_count_is_length:
  "cache_consistent initial_state
   \<and> (cache_consistent st \<longrightarrow> getSiteEvents dateParse net st siteId = (r, st') \<longrightarrow>
        cache_consistent st'
        \<and> (\<exists>ref. r = Inr ref \<and> EVENT_DATA_CACHE st' siteId = Some ref \<and> ref < length (heap st')
              \<and> count (heap st' ! ref) = length (events (heap st' ! ref))))"
proof -
  have init: "cache_consistent initial_state"
    by (simp add: cache_consistent_def initial_state_def)
  have fc: "count (first_catalog dateParse net st1 u) = length (events (first_catalog dateParse net st1 u))"
    for st1 u
    by (auto simp: first_catalog_def fetched_catalog_def empty_catalog_def split: fetched.splits option.splits)
  have step: "cache_consistent st' \<and> (\<exists>ref. r = Inr ref \<and> EVENT_DATA_CACHE st' siteId = Some ref
        \<and> ref < length (heap st') \<and> count (heap st' ! ref) = length (events (heap st' ! ref)))"
    if inv: "cache_consistent st" and run: "getSiteEvents dateParse net st siteId = (r, st')"
  proof (cases "EVENT_DATA_CACHE st siteId")
    case None
    obtain u st1 where g: "getAssetDownloadUrl net st (''Xtrem_all_var_'' @ siteId @ ''.csv'') = (u, st1)"
      by (cases "getAssetDownloadUrl net st (''Xtrem_all_var_'' @ siteId @ ''.csv'')")
    have r: "r = Inr (length (heap st))"
      and st': "st' = st1\<lparr>EVENT_DATA_CACHE := (EVENT_DATA_CACHE st)(siteId \<mapsto> length (heap st)),
          heap := heap st @ [first_catalog dateParse net st1 u],
          requests := requests st1 @ (if falsy_url u then [] else [the u])\<rparr>"
      using run by (simp_all add: getSiteEvents_def fetchAndParseXtremEvents_miss [OF None g])
    show ?thesis
      using inv fc [of st1 u] unfolding cache_consistent_def r st'
      by (auto simp: nth_append less_Suc_eq)
  next
    case (Some ref)
    then have "r = Inr ref" "st' = st"
      using run by (simp_all add: getSiteEvents_def fetchAndParseXtremEvents_hit)
    then show ?thesis
      using inv Some by (auto simp: cache_consistent_def)
  qed
  show ?thesis using init step by blast
qed

theorem cached_count_is_length_witness:
  "cache_consistent initial_state
   \<and> fst (getSiteEvents sample_dateParse sample_net initial_state ''TOGO'') = Inr 0
   \<and> count (heap (snd (getSiteEvents sample_dateParse sample_net initial_state ''TOGO'')) ! 0) = 2
   \<and> length (events (heap (snd (getSiteEvents sample_dateParse sample_net initial_state ''TOGO'')) ! 0)) = 2"
proof -
  define st2 where "st2 = snd (getSiteEvents sample_dateParse sample_net initial_state ''TOGO'')"
  have run: "getSiteEvents sample_dateParse sample_net initial_state ''TOGO'' = (Inr 0, st2)"
    by (simp add: st2_def first_call_TOGO)
  have h: "heap st2 ! 0 = \<lparr>count = 2, events = sortedEvents sample_dateParse two_events_csv\<rparr>"
    by (simp add: st2_def first_call_TOGO)
  from cached_count_is_length [of initial_state sample_dateParse sample_net "''TOGO''" "Inr 0" st2]
  have init: "cache_consistent initial_state"
    and "\<exists>ref. (Inr 0 :: js_error + nat) = Inr ref \<and> EVENT_DATA_CACHE st2 ''TOGO'' = Some ref
        \<and> ref < length (heap st2) \<and> count (heap st2 ! ref) = length (events (heap st2 ! ref))"
    using run by blast+
  then have "count (heap st2 ! 0) = length (events (heap st2 ! 0))"
    by auto
  then show ?thesis
    using init run h by (simp add: st2_def [symmetric])
qed

section \<open>Properties of the fallback on the local path\<close>




end
